theory Spec2Isabelle
  imports Main "HOL-Library.Sublist"
begin

section \<open>The news plugin of \<open>src/main.py\<close>: data model\<close>

text \<open>
  A news entry is the dict built at the end of each card of \<open>_get_latest_news\<close>, with the
  keys \<open>id\<close>, \<open>title\<close>, \<open>date\<close>, \<open>url\<close> and \<open>img_url\<close>. Python strings are modelled as
  \<open>string\<close>; the three non-ASCII marks of \<open>_format_news\<close> are written as their UTF-8 bytes.
\<close>

record item =
  item_id :: string
  title :: string
  date :: string
  url :: string
  img_url :: string

text \<open>
  What \<open>cache.json\<close> holds. \<open>_save_cache\<close> opens the file for writing (which truncates
  it) and then dumps the two fields; \<open>_load_cache\<close> reads it when it exists and logs any
  exception of \<open>json.load\<close>. A file cut short by a failed dump is not valid JSON.
\<close>

datatype disk = Absent | Corrupt | Stored "string set" "item list"

datatype write_outcome = WriteOk | OpenFailed | WriteFailed

text \<open>
  The fields of \<open>ImasNewsPlugin\<close> that the operations read and write, together with the two
  places on disk they own: \<open>cache.json\<close> and the names of the entries of \<open>self.img_dir\<close>
  (what \<open>os.listdir\<close> returns; the contents of the files are not modelled).
\<close>

record plugin =
  idx_cache :: "string set"
  item_cache :: "item list"
  cache_file :: disk
  img_dir :: "string list"

subsection \<open>\<open>__init__\<close>, \<open>_load_cache\<close>, \<open>_save_cache\<close>\<close>


definition load_cache :: "plugin \<Rightarrow> plugin" where
  "load_cache s =
     (case cache_file s of
        Absent \<Rightarrow> s
      | Corrupt \<Rightarrow> s
      | Stored ids items \<Rightarrow> s\<lparr>idx_cache := ids, item_cache := items\<rparr>)"

definition save_cache :: "write_outcome \<Rightarrow> plugin \<Rightarrow> plugin" where
  "save_cache w s =
     (case w of
        WriteOk \<Rightarrow> s\<lparr>cache_file := Stored (idx_cache s) (item_cache s)\<rparr>
      | OpenFailed \<Rightarrow> s
      | WriteFailed \<Rightarrow> s\<lparr>cache_file := Corrupt\<rparr>)"

subsection \<open>\<open>_check_update\<close>\<close>

text \<open>
  The loop \<open>for news in news_list: if news['id'] not in self.idx_cache: new_items.append(news)\<close>,
  with \<open>new_items\<close> as the accumulator.
\<close>

fun collect_new :: "string set \<Rightarrow> item list \<Rightarrow> item list \<Rightarrow> item list" where
  "collect_new seen [] new_items = new_items"
| "collect_new seen (news # rest) new_items =
     (if item_id news \<notin> seen then collect_new seen rest (new_items @ [news])
      else collect_new seen rest new_items)"

text \<open>
  \<open>_check_update\<close>, given the list that \<open>_get_latest_news\<close> returned and the outcome of the
  write of \<open>cache.json\<close>. It returns \<open>new_items\<close> and the plugin afterwards.
\<close>

definition check_update :: "write_outcome \<Rightarrow> item list \<Rightarrow> plugin \<Rightarrow> item list \<times> plugin" where
  "check_update w news_list s =
     (if news_list = [] then ([], s)
      else
        let new_items = collect_new (idx_cache s) news_list []
        in if new_items \<noteq> []
           then (new_items,
                 save_cache w
                   (s\<lparr>idx_cache := idx_cache s \<union> set (map item_id news_list),
                      item_cache := take 5 news_list\<rparr>))
           else (new_items, s))"

subsection \<open>The extractor: one card of \<open>_get_latest_news\<close>\<close>

text \<open>
  What the loop body reads from a card of the rendered page: the title link (its stripped
  text and its \<open>href\<close> attribute, if any), the stripped text of the date element, and the
  thumbnail (the \<open>src\<close> and \<open>data-src\<close> attributes of the \<open>img\<close> inside the thumb link).
\<close>

datatype thumb = NoThumbLink | NoImg | Img "string option" "string option"

record card =
  title_link :: "(string \<times> string option) option"
  date_elem :: "string option"
  thumb_link :: thumb

definition site_origin :: string where
  "site_origin = ''https://idolmaster-official.jp''"

text \<open>Lines 233 to 235: \<open>href\<close> defaults to the empty string.\<close>

definition news_url_of :: "string option \<Rightarrow> string" where
  "news_url_of href =
     (let news_url = (case href of None \<Rightarrow> [] | Some h \<Rightarrow> h)
      in if news_url \<noteq> [] \<and> \<not> prefix ''http'' news_url
         then site_origin @ news_url else news_url)"

text \<open>Lines 250 to 255: \<open>src\<close> when it is present and not empty, else \<open>data-src\<close>, else empty.\<close>

definition img_url_of :: "string option \<Rightarrow> string option \<Rightarrow> string" where
  "img_url_of src data_src =
     (let img_url = (case src of
                       Some u \<Rightarrow> (if u \<noteq> [] then u
                                  else (case data_src of None \<Rightarrow> [] | Some d \<Rightarrow> d))
                     | None \<Rightarrow> (case data_src of None \<Rightarrow> [] | Some d \<Rightarrow> d))
      in if img_url \<noteq> [] \<and> \<not> prefix ''http'' img_url
         then (if prefix ''//'' img_url then ''https:'' @ img_url
               else site_origin @ img_url)
         else img_url)"

text \<open>One iteration of the loop: \<open>None\<close> is the \<open>continue\<close> of a card without title link.\<close>

definition parse_card :: "card \<Rightarrow> item option" where
  "parse_card article =
     (case title_link article of
        None \<Rightarrow> None
      | Some (text, href) \<Rightarrow>
          let news_url = news_url_of href;
              news_id = news_url;
              d = (case date_elem article of None \<Rightarrow> [] | Some t \<Rightarrow> t);
              img = (case thumb_link article of
                       NoThumbLink \<Rightarrow> []
                     | NoImg \<Rightarrow> []
                     | Img src data_src \<Rightarrow> img_url_of src data_src)
          in Some \<lparr>item_id = news_id, title = text, date = d, url = news_url, img_url = img\<rparr>)"

fun parse_cards :: "card list \<Rightarrow> item list \<Rightarrow> item list" where
  "parse_cards [] news_items = news_items"
| "parse_cards (article # rest) news_items =
     (case parse_card article of
        None \<Rightarrow> parse_cards rest news_items
      | Some n \<Rightarrow> parse_cards rest (news_items @ [n]))"

text \<open>
  \<open>_get_latest_news\<close> on the outcome of the render step: \<open>None\<close> when Selenium gave no
  HTML, else the cards found in the page, in document order.
\<close>

definition get_latest_news :: "card list option \<Rightarrow> item list" where
  "get_latest_news page =
     (case page of
        None \<Rightarrow> []
      | Some articles \<Rightarrow> if articles = [] then [] else parse_cards (take 10 articles) [])"

subsection \<open>The environment of one process\<close>

text \<open>
  The outcome of \<open>client.get(url, timeout=30)\<close>: a timeout or another exception, or a
  response with its status code.
\<close>

datatype response = Timeout | Raised | Response int

text \<open>
  What the operations ask of the world around them: Python's built-in \<open>hash\<close> on strings
  (seeded anew for each process unless \<open>PYTHONHASHSEED\<close> fixes it), whether \<open>httpx\<close> was
  imported, the answer to each download, the outcome of writing each image file and
  \<open>cache.json\<close>, whether \<open>os.listdir\<close> and each \<open>os.remove\<close> raise, and the path of the image
  directory. An environment is fixed for the length of one operation.
\<close>

record env =
  hash :: "string \<Rightarrow> int"
  httpx_available :: bool
  http_get :: "string \<Rightarrow> response"
  img_write :: "string \<Rightarrow> write_outcome"
  cache_write :: write_outcome
  listdir_fails :: bool
  remove_fails :: "string \<Rightarrow> bool"
  img_dir_path :: string

subsection \<open>File names\<close>

definition digit_char :: "nat \<Rightarrow> char" where
  "digit_char d = ''0123456789'' ! (d mod 10)"

text \<open>The decimal digits of a natural number, as \<open>str\<close> prints them.\<close>

function str_nat :: "nat \<Rightarrow> string" where
  "str_nat n = (if n < 10 then [digit_char n] else str_nat (n div 10) @ [digit_char (n mod 10)])"
  by pat_completeness auto
termination
  by (relation "measure (\<lambda>n. n)") auto

declare str_nat.simps [simp del]

text \<open>
  The expression \<open>f"{abs(hash(news_item['id']))}.jpg"\<close>, which \<open>_format_news\<close> (line 311) and
  \<open>_cleanup_images\<close> (line 362) both evaluate.
\<close>

definition img_name :: "env \<Rightarrow> string \<Rightarrow> string" where
  "img_name e news_id = str_nat (nat (abs (hash e news_id))) @ ''.jpg''"

text \<open>\<open>os.path.join\<close> of two components on a POSIX system.\<close>

definition os_path_join :: "string \<Rightarrow> string \<Rightarrow> string" where
  "os_path_join a b =
     (if prefix ''/'' b then b
      else if a = [] \<or> last a = CHR ''/'' then a @ b
      else a @ ''/'' @ b)"

subsection \<open>\<open>_download_image\<close> and \<open>_format_news\<close>\<close>

definition add_file :: "string \<Rightarrow> string list \<Rightarrow> string list" where
  "add_file name dir = (if name \<in> set dir then dir else dir @ [name])"

text \<open>
  \<open>_download_image\<close>: the file is opened and written only after a response with status 200;
  every exception is logged and gives \<open>False\<close>. A write that fails after the file was opened
  leaves the file behind.
\<close>

definition download_image :: "env \<Rightarrow> string \<Rightarrow> string \<Rightarrow> plugin \<Rightarrow> bool \<times> plugin" where
  "download_image e u save_name s =
     (if \<not> httpx_available e then (False, s)
      else case http_get e u of
             Timeout \<Rightarrow> (False, s)
           | Raised \<Rightarrow> (False, s)
           | Response status_code \<Rightarrow>
               if status_code = 200
               then (case img_write e save_name of
                       WriteOk \<Rightarrow> (True, s\<lparr>img_dir := add_file save_name (img_dir s)\<rparr>)
                     | OpenFailed \<Rightarrow> (False, s)
                     | WriteFailed \<Rightarrow> (False, s\<lparr>img_dir := add_file save_name (img_dir s)\<rparr>))
               else (False, s))"

text \<open>The message components the plugin builds: \<open>Comp.Plain(text=...)\<close> and \<open>Comp.Image(file=...)\<close>.\<close>

datatype comp = Plain string | Image string

definition lbracket :: string where
  "lbracket = [CHR 0xE3, CHR 0x80, CHR 0x90]"

definition rbracket :: string where
  "rbracket = [CHR 0xE3, CHR 0x80, CHR 0x91]"

definition triangle :: string where
  "triangle = [CHR 0xE2, CHR 0x96, CHR 0xB2]"

definition newline :: string where
  "newline = [CHR 0x0A]"

definition format_news :: "env \<Rightarrow> item \<Rightarrow> plugin \<Rightarrow> comp list \<times> plugin" where
  "format_news e news_item s =
     (let chain1 = (if date news_item \<noteq> []
                    then [Plain (lbracket @ date news_item @ rbracket @ newline)] else []);
          chain2 = chain1 @ [Plain (title news_item @ newline)]
      in if img_url news_item \<noteq> []
         then
           let name = img_name e (item_id news_item);
               img_path = os_path_join (img_dir_path e) name;
               (success, s') = download_image e (img_url news_item) name s;
               chain3 = (if success then chain2 @ [Image img_path, Plain newline] else chain2)
           in (chain3 @ [Plain (triangle @ url news_item)], s')
         else (chain2 @ [Plain (triangle @ url news_item)], s))"

subsection \<open>\<open>_cleanup_images\<close>\<close>

text \<open>The loop over \<open>to_delete\<close>: a removal that raises is logged and the loop goes on.\<close>

fun remove_files :: "env \<Rightarrow> string list \<Rightarrow> string list \<Rightarrow> string list" where
  "remove_files e [] dir = dir"
| "remove_files e (filename # rest) dir =
     remove_files e rest (if remove_fails e filename then dir else removeAll filename dir)"

definition cached_files :: "env \<Rightarrow> plugin \<Rightarrow> string set" where
  "cached_files e s = set (map (\<lambda>it. img_name e (item_id it)) (item_cache s))"

text \<open>
  \<open>_cleanup_images\<close>. The set \<open>to_delete\<close> is walked in the order of the listing; the result
  does not depend on that order (lemma \<open>remove_files_set\<close> below).
\<close>

definition cleanup_images :: "env \<Rightarrow> plugin \<Rightarrow> plugin" where
  "cleanup_images e s =
     (if listdir_fails e then s
      else
        let existing_files = remdups (img_dir s);
            to_delete = filter (\<lambda>f. f \<notin> cached_files e s) existing_files
        in s\<lparr>img_dir := remove_files e to_delete (img_dir s)\<rparr>)"

subsection \<open>\<open>_check_news_update\<close> and the command \<open>send_imas_news\<close>\<close>

text \<open>
  The loop \<open>for item in reversed(new_items)\<close>, applied to the reversed list: each item is
  formatted and its push is logged. The broadcast itself is a TODO of the source, so the
  notifications of a cycle are the formatted items, in the order of the loop.
\<close>

fun push_news :: "env \<Rightarrow> item list \<Rightarrow> plugin \<Rightarrow> (item \<times> comp list) list \<times> plugin" where
  "push_news e [] s = ([], s)"
| "push_news e (it # rest) s =
     (let (message_chain, s1) = format_news e it s;
          (sent, s2) = push_news e rest s1
      in ((it, message_chain) # sent, s2))"

definition check_news_update :: "env \<Rightarrow> item list \<Rightarrow> plugin \<Rightarrow> (item \<times> comp list) list \<times> plugin" where
  "check_news_update e news_list s =
     (if idx_cache s = {}
      then ([], snd (check_update (cache_write e) news_list s))
      else
        let (new_items, s1) = check_update (cache_write e) news_list s
        in if new_items = [] then ([], s1)
           else
             let (sent, s2) = push_news e (rev new_items) s1
             in (sent, cleanup_images e s2))"



subsection \<open>Runs of the plugin\<close>




text \<open>A fresh installation: nothing in memory, no cache file, an empty image directory.\<close>

definition fresh :: plugin where
  "fresh = \<lparr>idx_cache = {}, item_cache = [], cache_file = Absent, img_dir = []\<rparr>"

subsection \<open>Example data\<close>

text \<open>The items of the end-to-end scenario: \<open>u1\<close> and \<open>u2\<close> without image, \<open>u3\<close> with one.\<close>

definition news_u1 :: item where
  "news_u1 = \<lparr>item_id = ''u1'', title = ''T1'', date = [], url = ''u1'', img_url = []\<rparr>"

definition news_u2 :: item where
  "news_u2 = \<lparr>item_id = ''u2'', title = ''T2'', date = ''2024.01.02'', url = ''u2'', img_url = []\<rparr>"

definition news_u3 :: item where
  "news_u3 = \<lparr>item_id = ''u3'', title = ''T3'', date = ''2024.01.03'', url = ''u3'',
              img_url = ''https://idolmaster-official.jp/img/3.jpg''\<rparr>"

text \<open>The plugin after the first cycle of that scenario, with an empty image directory.\<close>

definition warm :: plugin where
  "warm = \<lparr>idx_cache = {''u1'', ''u2''}, item_cache = [news_u1, news_u2],
           cache_file = Stored {''u1'', ''u2''} [news_u1, news_u2], img_dir = []\<rparr>"

text \<open>Three further items, \<open>A\<close> the newest, each with an image.\<close>

definition news_a :: item where
  "news_a = \<lparr>item_id = ''A'', title = ''TA'', date = ''2024.02.03'', url = ''A'',
             img_url = ''https://idolmaster-official.jp/img/a.jpg''\<rparr>"

definition news_b :: item where
  "news_b = \<lparr>item_id = ''B'', title = ''TB'', date = ''2024.02.02'', url = ''B'',
             img_url = ''https://idolmaster-official.jp/img/b.jpg''\<rparr>"

definition news_c :: item where
  "news_c = \<lparr>item_id = ''C'', title = ''TC'', date = [], url = ''C'',
             img_url = ''https://idolmaster-official.jp/img/c.jpg''\<rparr>"

text \<open>
  The values of \<open>hash\<close> on the ids above in two CPython 3.11 processes, started with
  \<open>PYTHONHASHSEED=1\<close> and \<open>PYTHONHASHSEED=2\<close>; other strings are not looked up in the examples.
\<close>

definition hash_seed1 :: "string \<Rightarrow> int" where
  "hash_seed1 k =
     (if k = ''u1'' then 3263829485364790232
      else if k = ''u2'' then - 7593354217846249296
      else if k = ''u3'' then 4925153543722578552
      else if k = ''A'' then 3010739813545375555
      else if k = ''B'' then 7963993581925886801
      else if k = ''C'' then - 2348551709478583224
      else 0)"

definition hash_seed2 :: "string \<Rightarrow> int" where
  "hash_seed2 k =
     (if k = ''u1'' then 8463862328116406225
      else if k = ''u2'' then 1444054655999509311
      else if k = ''u3'' then - 5813750762588533855
      else if k = ''A'' then 5140995546803149278
      else if k = ''B'' then 2021804074325056218
      else if k = ''C'' then - 7042021111429722132
      else 0)"

text \<open>A process in which every download, write and removal succeeds.\<close>

definition proc1 :: env where
  "proc1 = \<lparr>hash = hash_seed1, httpx_available = True, http_get = (\<lambda>u. Response 200),
            img_write = (\<lambda>n. WriteOk), cache_write = WriteOk, listdir_fails = False,
            remove_fails = (\<lambda>f. False), img_dir_path = ''data/imas_news/images''\<rparr>"

text \<open>The same with the other seed, and the first one with every download timing out.\<close>

definition proc2 :: env where
  "proc2 = proc1\<lparr>hash := hash_seed2\<rparr>"

definition offline :: env where
  "offline = proc1\<lparr>http_get := (\<lambda>u. Timeout)\<rparr>"

text \<open>
  The plugin with \<open>u3\<close>, \<open>u1\<close> and \<open>u2\<close> retained, the image of \<open>u3\<close> on disk under its
  name in the first process, and one file that belongs to no retained item.
\<close>

definition cluttered :: plugin where
  "cluttered = \<lparr>idx_cache = {''u1'', ''u2'', ''u3''}, item_cache = [news_u3, news_u1, news_u2],
                cache_file = Stored {''u1'', ''u2'', ''u3''} [news_u3, news_u1, news_u2],
                img_dir = [''4925153543722578552.jpg'', ''old.jpg'']\<rparr>"

text \<open>
  A card whose title link and whose image both carry a protocol-relative address, and six
  candidates of which the first three are new to \<open>warm\<close>.
\<close>

definition card_pr :: card where
  "card_pr = \<lparr>title_link = Some (''T'', Some ''//cdn.example.jp/news/1''), date_elem = None,
              thumb_link = Img (Some ''//cdn.example.jp/img/1.jpg'') None\<rparr>"


subsection \<open>Invariants of the retained items\<close>







text \<open>A process in which every download arrives and every write of an image fails
  after the file was opened.\<close>

definition disk_full :: env where
  "disk_full = proc1\<lparr>img_write := (\<lambda>n. WriteFailed)\<rparr>"

subsection \<open>Failed downloads\<close>

text \<open>
  The failures of a download that the specification names: a timeout, another exception
  of the request, or a response whose status is not in the range 200 to 299.
\<close>

definition download_fails :: "env \<Rightarrow> string \<Rightarrow> bool" where
  "download_fails e u =
     (case http_get e u of
        Timeout \<Rightarrow> True
      | Raised \<Rightarrow> True
      | Response status_code \<Rightarrow> \<not> (200 \<le> status_code \<and> status_code < 300))"

section \<open>The dedup diff\<close>

lemma collect_new_filter:
  "collect_new seen news acc = acc @ filter (\<lambda>n. item_id n \<notin> seen) news"
  by (induction news arbitrary: acc) simp_all

lemma check_update_fst:
  "fst (check_update w news_list s) = filter (\<lambda>n. item_id n \<notin> idx_cache s) news_list"
  by (simp add: check_update_def collect_new_filter Let_def)

lemma save_cache_fields [simp]:
  "idx_cache (save_cache w s) = idx_cache s"
  "item_cache (save_cache w s) = item_cache s"
  "img_dir (save_cache w s) = img_dir s"
  by (cases w; simp add: save_cache_def)+

text \<open>
  C1. For every candidate batch and every prior seen set, \<open>_check_update\<close> returns exactly
  the candidates whose id is not in \<open>idx_cache\<close> at call time, in the order of the batch: the
  result is the batch filtered by that test, hence a subsequence of it.
\<close>

theorem check_update_returns_novel_in_order:
  "fst (check_update w news_list s) = filter (\<lambda>n. item_id n \<notin> idx_cache s) news_list
   \<and> subseq (fst (check_update w news_list s)) news_list
   \<and> set (fst (check_update w news_list s)) = {n \<in> set news_list. item_id n \<notin> idx_cache s}"
  by (simp add: check_update_fst)


text \<open>
  C2. When the novel subset is not empty, \<open>idx_cache\<close> gains the id of every candidate of
  the batch and \<open>item_cache\<close> becomes the first five candidates; when it is empty, the
  plugin (the caches, \<open>cache.json\<close> and the image directory) is left as it was.
\<close>

theorem check_update_cache_effect:
  "(fst (check_update w news_list s) \<noteq> [] \<longrightarrow>
      idx_cache (snd (check_update w news_list s)) = idx_cache s \<union> item_id ` set news_list
      \<and> item_cache (snd (check_update w news_list s)) = take 5 news_list)
   \<and> (fst (check_update w news_list s) = [] \<longrightarrow> snd (check_update w news_list s) = s)"
  by (simp add: check_update_def Let_def)

theorem check_update_cache_effect_witness:
  "fst (check_update WriteOk [news_u3, news_u1, news_u2] warm) \<noteq> []
   \<and> idx_cache (snd (check_update WriteOk [news_u3, news_u1, news_u2] warm)) = {''u1'', ''u2'', ''u3''}
   \<and> item_cache (snd (check_update WriteOk [news_u3, news_u1, news_u2] warm)) = [news_u3, news_u1, news_u2]
   \<and> fst (check_update WriteOk [news_u2, news_u1] warm) = []
   \<and> snd (check_update WriteOk [news_u2, news_u1] warm) = warm"
proof -
  have a: "fst (check_update WriteOk [news_u3, news_u1, news_u2] warm) \<noteq> []"
    by (simp add: check_update_fst warm_def news_u3_def)
  have b: "fst (check_update WriteOk [news_u2, news_u1] warm) = []"
    by (simp add: check_update_fst warm_def news_u1_def news_u2_def)
  have c: "idx_cache warm \<union> item_id ` set [news_u3, news_u1, news_u2] = {''u1'', ''u2'', ''u3''}"
    by (auto simp: warm_def news_u1_def news_u2_def news_u3_def)
  from a b c
    check_update_cache_effect [of WriteOk "[news_u3, news_u1, news_u2]" warm]
    check_update_cache_effect [of WriteOk "[news_u2, news_u1]" warm]
  show ?thesis by simp
qed

section \<open>Cold start\<close>

lemma check_update_cold:
  assumes "idx_cache s = {}" and "news_list \<noteq> []"
  shows "fst (check_update w news_list s) = news_list"
    and "idx_cache (snd (check_update w news_list s)) = item_id ` set news_list"
    and "item_cache (snd (check_update w news_list s)) = take 5 news_list"
  using assms by (simp_all add: check_update_def Let_def collect_new_filter)

text \<open>
  C3. A scheduled cycle that starts with an empty \<open>idx_cache\<close> and gets a non-empty batch
  sends nothing, and afterwards \<open>idx_cache\<close> is the set of the ids of the batch and
  \<open>item_cache\<close> its first five candidates.
\<close>

theorem cold_cycle_silent_and_seeded:
  assumes "idx_cache s = {}" and "news_list \<noteq> []"
  shows "fst (check_news_update e news_list s) = []
         \<and> idx_cache (snd (check_news_update e news_list s)) = item_id ` set news_list
         \<and> item_cache (snd (check_news_update e news_list s)) = take 5 news_list"
  using assms check_update_cold [OF assms] by (simp add: check_news_update_def)

theorem cold_cycle_silent_and_seeded_witness:
  "idx_cache fresh = {} \<and> [news_u1, news_u2] \<noteq> []
   \<and> fst (check_news_update proc1 [news_u1, news_u2] fresh) = []
   \<and> idx_cache (snd (check_news_update proc1 [news_u1, news_u2] fresh)) = {''u1'', ''u2''}
   \<and> item_cache (snd (check_news_update proc1 [news_u1, news_u2] fresh)) = [news_u1, news_u2]"
proof -
  have a: "idx_cache fresh = {}" by (simp add: fresh_def)
  have b: "[news_u1, news_u2] \<noteq> []" by simp
  have c: "item_id ` set [news_u1, news_u2] = {''u1'', ''u2''}"
    by (simp add: news_u1_def news_u2_def)
  from cold_cycle_silent_and_seeded [OF a b, of proc1] a c show ?thesis by simp
qed

text \<open>
  C4, as the claim has it, fails: on an empty \<open>idx_cache\<close> the call of \<open>_check_update\<close> itself
  returns the candidates, here both items of the scenario.
\<close>

theorem check_update_cold_counterexample:
  "idx_cache fresh = {}
   \<and> fst (check_update WriteOk [news_u1, news_u2] fresh) = [news_u1, news_u2]
   \<and> fst (check_update WriteOk [news_u1, news_u2] fresh) \<noteq> []"
  by (simp add: check_update_fst fresh_def)

text \<open>
  C4, amended. On an empty \<open>idx_cache\<close> and a non-empty batch, \<open>_check_update\<close> seeds the
  cache and returns the whole batch as novel; it is the caller \<open>_check_news_update\<close> that
  drops the returned list on a cold start.
\<close>

theorem check_update_cold_returns_batch:
  assumes "idx_cache s = {}" and "news_list \<noteq> []"
  shows "fst (check_update w news_list s) = news_list
         \<and> idx_cache (snd (check_update w news_list s)) = item_id ` set news_list
         \<and> item_cache (snd (check_update w news_list s)) = take 5 news_list"
  using check_update_cold [OF assms] by simp

theorem check_update_cold_returns_batch_witness:
  "idx_cache fresh = {} \<and> [news_u1, news_u2] \<noteq> []
   \<and> fst (check_update WriteOk [news_u1, news_u2] fresh) = [news_u1, news_u2]
   \<and> idx_cache (snd (check_update WriteOk [news_u1, news_u2] fresh)) = {''u1'', ''u2''}
   \<and> item_cache (snd (check_update WriteOk [news_u1, news_u2] fresh)) = [news_u1, news_u2]"
proof -
  have a: "idx_cache fresh = {}" by (simp add: fresh_def)
  have b: "[news_u1, news_u2] \<noteq> []" by simp
  have c: "item_id ` set [news_u1, news_u2] = {''u1'', ''u2''}"
    by (simp add: news_u1_def news_u2_def)
  from check_update_cold_returns_batch [OF a b, of WriteOk] a c show ?thesis by simp
qed


section \<open>Formatting and the notification loop\<close>

lemma download_image_frame [simp]:
  "idx_cache (snd (download_image e u n s)) = idx_cache s"
  "item_cache (snd (download_image e u n s)) = item_cache s"
  "cache_file (snd (download_image e u n s)) = cache_file s"
  by (simp_all add: download_image_def split: response.splits write_outcome.splits)

lemma format_news_frame [simp]:
  "idx_cache (snd (format_news e it s)) = idx_cache s"
  "item_cache (snd (format_news e it s)) = item_cache s"
  "cache_file (snd (format_news e it s)) = cache_file s"
  by (simp_all add: format_news_def Let_def split_beta)

lemma push_news_frame [simp]:
  "idx_cache (snd (push_news e items s)) = idx_cache s"
  "item_cache (snd (push_news e items s)) = item_cache s"
  "cache_file (snd (push_news e items s)) = cache_file s"
  by (induction items arbitrary: s; simp add: split_beta Let_def)+

lemma push_news_items:
  "map fst (fst (push_news e items s)) = items"
  by (induction items arbitrary: s) (simp_all add: split_beta Let_def)

text \<open>Every message chain carries the title line and ends with the link line.\<close>

lemma format_news_title_link:
  "Plain (title it @ newline) \<in> set (fst (format_news e it s))
   \<and> last (fst (format_news e it s)) = Plain (triangle @ url it)"
  by (simp add: format_news_def Let_def split_beta)

lemma push_news_payloads:
  "list_all (\<lambda>(it, chain). Plain (title it @ newline) \<in> set chain
                            \<and> last chain = Plain (triangle @ url it))
            (fst (push_news e items s))"
proof (induction items arbitrary: s)
  case Nil
  show ?case by simp
next
  case (Cons it rest)
  from format_news_title_link [of it e s] Cons.IH
  show ?case by (simp add: split_beta Let_def)
qed

text \<open>
  C6. On a cycle that starts with a non-empty \<open>idx_cache\<close> and whose batch has novel items,
  there is one notification for each novel item, and the notifications follow the reverse
  of the order in which the diff returned them; each carries the title and the link of its
  item.
\<close>

theorem warm_cycle_pushes_in_reverse:
  assumes "idx_cache s \<noteq> {}"
      and "fst (check_update (cache_write e) news_list s) \<noteq> []"
  shows "map fst (fst (check_news_update e news_list s))
           = rev (fst (check_update (cache_write e) news_list s))
         \<and> length (fst (check_news_update e news_list s))
           = length (fst (check_update (cache_write e) news_list s))
         \<and> list_all (\<lambda>(it, chain). Plain (title it @ newline) \<in> set chain
                                     \<and> last chain = Plain (triangle @ url it))
                     (fst (check_news_update e news_list s))"
proof -
  let ?new = "fst (check_update (cache_write e) news_list s)"
  let ?s1 = "snd (check_update (cache_write e) news_list s)"
  have sent: "fst (check_news_update e news_list s) = fst (push_news e (rev ?new) ?s1)"
    using assms by (simp add: check_news_update_def split_beta Let_def)
  have "length (fst (push_news e (rev ?new) ?s1)) = length (rev ?new)"
    using push_news_items [of e "rev ?new" ?s1] by (metis length_map)
  with sent push_news_items [of e "rev ?new" ?s1] push_news_payloads [of e "rev ?new" ?s1]
  show ?thesis by simp
qed

theorem warm_cycle_pushes_in_reverse_witness:
  "idx_cache warm \<noteq> {}
   \<and> fst (check_update (cache_write proc1) [news_a, news_b, news_c] warm) = [news_a, news_b, news_c]
   \<and> map fst (fst (check_news_update proc1 [news_a, news_b, news_c] warm))
       = [news_c, news_b, news_a]
   \<and> length (fst (check_news_update proc1 [news_a, news_b, news_c] warm)) = 3"
proof -
  have a: "idx_cache warm \<noteq> {}" by (simp add: warm_def)
  have b: "fst (check_update (cache_write proc1) [news_a, news_b, news_c] warm)
             = [news_a, news_b, news_c]"
    by (simp add: check_update_fst warm_def news_a_def news_b_def news_c_def)
  then have c: "fst (check_update (cache_write proc1) [news_a, news_b, news_c] warm) \<noteq> []"
    by simp
  from warm_cycle_pushes_in_reverse [OF a c] a b show ?thesis by simp
qed

section \<open>The cleanup of the image directory\<close>

lemma remove_files_set:
  "set (remove_files e fs dir) = set dir - {f \<in> set fs. \<not> remove_fails e f}"
  by (induction fs arbitrary: dir) auto

text \<open>The order in which \<open>to_delete\<close> is walked does not matter.\<close>

lemma remove_files_order:
  "set fs = set fs' \<Longrightarrow> set (remove_files e fs dir) = set (remove_files e fs' dir)"
  by (simp add: remove_files_set)

lemma cleanup_images_frame [simp]:
  "idx_cache (cleanup_images e s) = idx_cache s"
  "item_cache (cleanup_images e s) = item_cache s"
  "cache_file (cleanup_images e s) = cache_file s"
  by (simp_all add: cleanup_images_def Let_def)

lemma cleanup_images_set:
  "\<not> listdir_fails e \<Longrightarrow>
   set (img_dir (cleanup_images e s))
     = set (img_dir s) - {f. f \<notin> cached_files e s \<and> \<not> remove_fails e f}"
  by (auto simp: cleanup_images_def Let_def remove_files_set)

lemma img_name_u3: "img_name proc1 ''u3'' = ''4925153543722578552.jpg''"
  by (simp add: img_name_def proc1_def hash_seed1_def str_nat.simps digit_char_def)

lemma img_name_u1: "img_name proc1 ''u1'' = ''3263829485364790232.jpg''"
  by (simp add: img_name_def proc1_def hash_seed1_def str_nat.simps digit_char_def)

lemma img_name_u2: "img_name proc1 ''u2'' = ''7593354217846249296.jpg''"
  by (simp add: img_name_def proc1_def hash_seed1_def str_nat.simps digit_char_def)

lemma cached_files_proc1:
  "cached_files proc1 cluttered
     = {''4925153543722578552.jpg'', ''3263829485364790232.jpg'', ''7593354217846249296.jpg''}"
  by (simp add: cached_files_def cluttered_def news_u1_def news_u2_def news_u3_def
      img_name_u1 img_name_u2 img_name_u3)

lemma remove_fails_proc1: "remove_fails proc1 f = False"
  by (simp add: proc1_def)

text \<open>
  C7. When the image directory can be listed, \<open>_cleanup_images\<close> removes exactly the files
  that are not the name of a retained item and whose removal does not raise: a removal that
  raises keeps that one file and no other. So when no removal raises, every file left is
  the name derived from the id of some item of \<open>item_cache\<close>, which the cleanup does not
  change.
\<close>

theorem cleanup_removes_orphans:
  assumes "\<not> listdir_fails e"
  shows "set (img_dir (cleanup_images e s))
           = set (img_dir s) - {f. f \<notin> cached_files e s \<and> \<not> remove_fails e f}
         \<and> cached_files e s = (\<lambda>it. img_name e (item_id it)) ` set (item_cache s)
         \<and> item_cache (cleanup_images e s) = item_cache s
         \<and> ((\<forall>f \<in> set (img_dir s) - cached_files e s. \<not> remove_fails e f) \<longrightarrow>
              (\<forall>f \<in> set (img_dir (cleanup_images e s)).
                 \<exists>it \<in> set (item_cache (cleanup_images e s)). f = img_name e (item_id it)))"
proof -
  have files: "cached_files e s = (\<lambda>it. img_name e (item_id it)) ` set (item_cache s)"
    by (simp add: cached_files_def)
  have left: "set (img_dir (cleanup_images e s))
                = set (img_dir s) - {f. f \<notin> cached_files e s \<and> \<not> remove_fails e f}"
    by (rule cleanup_images_set [OF assms])
  have "\<exists>it \<in> set (item_cache s). f = img_name e (item_id it)"
    if ok: "\<forall>f \<in> set (img_dir s) - cached_files e s. \<not> remove_fails e f"
      and f: "f \<in> set (img_dir (cleanup_images e s))" for f
  proof -
    from f left have "f \<in> set (img_dir s)" and "f \<in> cached_files e s \<or> remove_fails e f"
      by auto
    with ok have "f \<in> cached_files e s" by auto
    with files show ?thesis by auto
  qed
  with files left show ?thesis by simp
qed

theorem cleanup_removes_orphans_witness:
  "\<not> listdir_fails proc1
   \<and> set (img_dir (cleanup_images proc1 cluttered)) = {''4925153543722578552.jpg''}
   \<and> item_cache (cleanup_images proc1 cluttered) = [news_u3, news_u1, news_u2]
   \<and> img_name proc1 (item_id news_u3) = ''4925153543722578552.jpg''"
proof -
  have a: "\<not> listdir_fails proc1" by (simp add: proc1_def)
  note b = cached_files_proc1
  have c: "set (img_dir cluttered) - {f. f \<notin> cached_files proc1 cluttered \<and> \<not> remove_fails proc1 f}
             = {''4925153543722578552.jpg''}"
    unfolding b remove_fails_proc1 by (auto simp: cluttered_def)
  have d: "item_cache cluttered = [news_u3, news_u1, news_u2]" by (simp add: cluttered_def)
  have e: "img_name proc1 (item_id news_u3) = ''4925153543722578552.jpg''"
    by (simp add: news_u3_def img_name_u3)
  from cleanup_removes_orphans [OF a, of cluttered] a c d e show ?thesis by simp
qed


section \<open>The file name of an image\<close>

lemma img_name_u1_proc2: "img_name proc2 ''u1'' = ''8463862328116406225.jpg''"
  by (simp add: img_name_def proc2_def proc1_def hash_seed2_def str_nat.simps digit_char_def)

lemma img_name_u2_proc2: "img_name proc2 ''u2'' = ''1444054655999509311.jpg''"
  by (simp add: img_name_def proc2_def proc1_def hash_seed2_def str_nat.simps digit_char_def)

lemma img_name_u3_proc2: "img_name proc2 ''u3'' = ''5813750762588533855.jpg''"
  by (simp add: img_name_def proc2_def proc1_def hash_seed2_def str_nat.simps digit_char_def)

lemma img_name_cong:
  "hash e' = hash e \<Longrightarrow> img_name e' news_id = img_name e news_id"
  by (simp add: img_name_def)

text \<open>An image component in the chain means that the file was written under the item's name.\<close>

lemma download_image_saved:
  "fst (download_image e u n s) \<Longrightarrow> n \<in> set (img_dir (snd (download_image e u n s)))"
  by (auto simp: download_image_def add_file_def split: response.splits write_outcome.splits if_splits)

lemma format_news_saved:
  assumes "Image p \<in> set (fst (format_news e it s))"
  shows "img_name e (item_id it) \<in> set (img_dir (snd (format_news e it s)))"
proof (cases "img_url it \<noteq> [] \<and> fst (download_image e (img_url it) (img_name e (item_id it)) s)")
  case True
  then show ?thesis
    using download_image_saved [of e "img_url it" "img_name e (item_id it)" s]
    by (simp add: format_news_def Let_def split_beta)
next
  case False
  with assms show ?thesis
    by (auto simp: format_news_def Let_def split_beta split: if_splits)
qed

text \<open>
  Within one process the name is a function of the id alone: two evaluations under the
  same hash function agree, the file that \<open>_format_news\<close> wrote for an item carries that
  name, and \<open>_cleanup_images\<close> keeps that name while the item is retained.
\<close>

lemma img_name_same_process:
  assumes "hash e' = hash e"
  shows "img_name e' news_id = img_name e news_id
         \<and> (Image p \<in> set (fst (format_news e' it s')) \<longrightarrow>
              img_name e (item_id it) \<in> set (img_dir (snd (format_news e' it s'))))
         \<and> (it \<in> set (item_cache s) \<longrightarrow> img_name e' (item_id it) \<in> cached_files e s)"
proof -
  have same: "img_name e' k = img_name e k" for k
    by (rule img_name_cong [OF assms])
  have "img_name e' (item_id it) \<in> set (img_dir (snd (format_news e' it s')))"
    if "Image p \<in> set (fst (format_news e' it s'))"
    by (rule format_news_saved [OF that])
  moreover have "img_name e (item_id it) \<in> cached_files e s" if "it \<in> set (item_cache s)"
    using that by (auto simp: cached_files_def)
  ultimately show ?thesis using same by simp
qed

lemma cached_files_proc2:
  "cached_files proc2 cluttered
     = {''5813750762588533855.jpg'', ''8463862328116406225.jpg'', ''1444054655999509311.jpg''}"
  by (simp add: cached_files_def cluttered_def news_u1_def news_u2_def news_u3_def
      img_name_u1_proc2 img_name_u2_proc2 img_name_u3_proc2)

lemma cleanup_images_proc2:
  "img_dir (cleanup_images proc2 cluttered) = []"
proof -
  have "filter (\<lambda>f. f \<notin> cached_files proc2 cluttered) (remdups (img_dir cluttered))
          = [''4925153543722578552.jpg'', ''old.jpg'']"
    unfolding cached_files_proc2 by (simp add: cluttered_def)
  then show ?thesis
    by (simp add: cleanup_images_def Let_def)
       (simp add: proc2_def proc1_def cluttered_def)
qed

text \<open>
  C10. The name is derived with Python's built-in \<open>hash\<close> of the id, which CPython seeds
  anew for each process. Evaluated in two processes (seeds 1 and 2), the id \<open>u3\<close> gets two
  different file names; so after a restart the cleanup no longer recognises the image that
  the earlier process saved for \<open>u3\<close>, and removes it although \<open>u3\<close> is still retained.
\<close>

theorem img_name_differs_across_processes:
  "img_name proc1 (item_id news_u3) = ''4925153543722578552.jpg''
   \<and> img_name proc2 (item_id news_u3) = ''5813750762588533855.jpg''
   \<and> img_name proc1 (item_id news_u3) \<noteq> img_name proc2 (item_id news_u3)
   \<and> news_u3 \<in> set (item_cache cluttered)
   \<and> img_name proc1 (item_id news_u3) \<in> set (img_dir cluttered)
   \<and> img_dir (cleanup_images proc1 cluttered) = [''4925153543722578552.jpg'']
   \<and> img_dir (cleanup_images proc2 cluttered) = []"
proof -
  have "filter (\<lambda>f. f \<notin> cached_files proc1 cluttered) (remdups (img_dir cluttered)) = [''old.jpg'']"
    unfolding cached_files_proc1 by (simp add: cluttered_def)
  then have kept: "img_dir (cleanup_images proc1 cluttered) = [''4925153543722578552.jpg'']"
    by (simp add: cleanup_images_def Let_def)
       (simp add: proc1_def cluttered_def)
  have n1: "img_name proc1 (item_id news_u3) = ''4925153543722578552.jpg''"
    by (simp add: news_u3_def img_name_u3)
  have n2: "img_name proc2 (item_id news_u3) = ''5813750762588533855.jpg''"
    by (simp add: news_u3_def img_name_u3_proc2)
  have r: "news_u3 \<in> set (item_cache cluttered)" by (simp add: cluttered_def)
  have d: "''4925153543722578552.jpg'' \<in> set (img_dir cluttered)" by (simp add: cluttered_def)
  from kept n1 n2 r d cleanup_images_proc2 show ?thesis by simp
qed

section \<open>Failed downloads\<close>

lemma download_image_not_200:
  assumes "\<not> httpx_available e \<or> http_get e u \<noteq> Response 200"
  shows "download_image e u n s = (False, s)"
  using assms by (auto simp: download_image_def split: response.splits)

lemma download_fails_not_200:
  "download_fails e u \<Longrightarrow> http_get e u \<noteq> Response 200"
  by (auto simp: download_fails_def)

text \<open>Each failure that the specification names makes \<open>_download_image\<close> return \<open>False\<close>.\<close>

lemma download_fails_returns_false:
  "download_fails e u \<Longrightarrow> \<not> fst (download_image e u n s)"
  using download_fails_not_200 [of e u] by (simp add: download_image_not_200)

lemma download_image_open_failed:
  "img_write e n = OpenFailed \<Longrightarrow> download_image e u n s = (False, s)"
  by (simp add: download_image_def split: response.splits)

lemma download_image_write_failed:
  assumes "httpx_available e" and "http_get e u = Response 200" and "img_write e n = WriteFailed"
  shows "download_image e u n s = (False, s\<lparr>img_dir := add_file n (img_dir s)\<rparr>)"
  using assms by (simp add: download_image_def)

lemma download_image_false_cases:
  assumes "\<not> fst (download_image e u n s)"
  shows "\<not> httpx_available e \<or> http_get e u \<noteq> Response 200 \<or> img_write e n \<noteq> WriteOk"
  using assms by (auto simp: download_image_def)

lemma format_news_failed_chain:
  assumes "\<not> fst (download_image e (img_url it) (img_name e (item_id it)) s)"
  shows "fst (format_news e it s)
           = (if date it \<noteq> [] then [Plain (lbracket @ date it @ rbracket @ newline)] else [])
             @ [Plain (title it @ newline), Plain (triangle @ url it)]"
  using assms by (simp add: format_news_def Let_def split_beta)

lemma format_news_no_file:
  assumes "download_image e (img_url it) (img_name e (item_id it)) s = (False, s)"
  shows "snd (format_news e it s) = s"
  using assms by (simp add: format_news_def Let_def)

lemma format_news_left_file:
  assumes "img_url it \<noteq> []"
      and "download_image e (img_url it) (img_name e (item_id it)) s = (False, s')"
  shows "snd (format_news e it s) = s'"
  using assms by (simp add: format_news_def Let_def)

text \<open>
  C8, as the claim has it, fails: when the response arrives and the write of the file
  raises after the file was opened, \<open>_download_image\<close> catches the exception and returns
  \<open>False\<close>, the payload has no image, and yet a file is left under the name of the item.
\<close>

theorem failed_download_counterexample:
  "fst (download_image disk_full (img_url news_u3) (img_name disk_full (item_id news_u3)) warm)
     = False
   \<and> fst (format_news disk_full news_u3 warm)
       = [Plain (lbracket @ ''2024.01.03'' @ rbracket @ newline), Plain (''T3'' @ newline),
          Plain (triangle @ ''u3'')]
   \<and> img_name disk_full (item_id news_u3) = ''4925153543722578552.jpg''
   \<and> img_dir warm = []
   \<and> img_dir (snd (format_news disk_full news_u3 warm)) = [''4925153543722578552.jpg'']"
proof -
  have n: "img_name disk_full (item_id news_u3) = ''4925153543722578552.jpg''"
    using img_name_cong [of disk_full proc1 "''u3''"]
    by (simp add: disk_full_def news_u3_def img_name_u3)
  have d: "download_image disk_full (img_url news_u3) ''4925153543722578552.jpg'' warm
             = (False, warm\<lparr>img_dir := [''4925153543722578552.jpg'']\<rparr>)"
    by (simp add: download_image_def disk_full_def proc1_def warm_def add_file_def)
  have u: "img_url news_u3 \<noteq> []" "date news_u3 = ''2024.01.03''" "title news_u3 = ''T3''"
    "url news_u3 = ''u3''"
    by (simp_all add: news_u3_def)
  have f: "\<not> fst (download_image disk_full (img_url news_u3) (img_name disk_full (item_id news_u3)) warm)"
    by (simp add: n d)
  have c: "fst (format_news disk_full news_u3 warm)
       = [Plain (lbracket @ ''2024.01.03'' @ rbracket @ newline), Plain (''T3'' @ newline),
          Plain (triangle @ ''u3'')]"
    using format_news_failed_chain [OF f] u by simp
  have s: "snd (format_news disk_full news_u3 warm) = warm\<lparr>img_dir := [''4925153543722578552.jpg'']\<rparr>"
    by (rule format_news_left_file [OF u(1)]) (simp add: n d)
  have w: "img_dir warm = []" by (simp add: warm_def)
  from f c n s w show ?thesis by simp
qed

text \<open>
  C8, amended. Whenever the download of an item's image fails, that is whenever
  \<open>_download_image\<close> returns \<open>False\<close> (\<open>httpx\<close> missing, a timeout, an exception of the
  request, a status other than 200, or an exception while the file is opened or written),
  \<open>_format_news\<close> still returns the payload: the date line when the item has a date, the
  title line and the link line, without any image component, and the notification loop
  emits the item and goes on with the rest. No file appears under the item's name, and
  the plugin is as before, unless the failure is an exception of the write after the file
  was opened: then that file is left in the image directory.
\<close>

theorem failed_download_keeps_item:
  assumes "\<not> fst (download_image e (img_url it) (img_name e (item_id it)) s)"
  shows "fst (format_news e it s)
           = (if date it \<noteq> [] then [Plain (lbracket @ date it @ rbracket @ newline)] else [])
             @ [Plain (title it @ newline), Plain (triangle @ url it)]
         \<and> Image p \<notin> set (fst (format_news e it s))
         \<and> fst (push_news e (it # rest) s)
           = (it, fst (format_news e it s)) # fst (push_news e rest (snd (format_news e it s)))
         \<and> (\<not> httpx_available e \<or> http_get e (img_url it) \<noteq> Response 200
              \<or> img_write e (img_name e (item_id it)) \<noteq> WriteFailed
             \<longrightarrow> snd (format_news e it s) = s)
         \<and> (img_url it \<noteq> [] \<and> httpx_available e \<and> http_get e (img_url it) = Response 200
              \<and> img_write e (img_name e (item_id it)) = WriteFailed
             \<longrightarrow> snd (format_news e it s)
                   = s\<lparr>img_dir := add_file (img_name e (item_id it)) (img_dir s)\<rparr>)"
proof -
  let ?n = "img_name e (item_id it)"
  note chain = format_news_failed_chain [OF assms]
  have no_image: "Image p \<notin> set (fst (format_news e it s))"
    unfolding chain by simp
  have loop: "fst (push_news e (it # rest) s)
           = (it, fst (format_news e it s)) # fst (push_news e rest (snd (format_news e it s)))"
    by (simp add: split_beta Let_def)
  have same: "snd (format_news e it s) = s"
    if "\<not> httpx_available e \<or> http_get e (img_url it) \<noteq> Response 200 \<or> img_write e ?n \<noteq> WriteFailed"
  proof (rule format_news_no_file)
    show "download_image e (img_url it) ?n s = (False, s)"
    proof (cases "\<not> httpx_available e \<or> http_get e (img_url it) \<noteq> Response 200")
      case True
      then show ?thesis by (rule download_image_not_200)
    next
      case False
      with that download_image_false_cases [OF assms]
      have "img_write e ?n = OpenFailed" by (cases "img_write e ?n") auto
      then show ?thesis by (rule download_image_open_failed)
    qed
  qed
  have left: "snd (format_news e it s) = s\<lparr>img_dir := add_file ?n (img_dir s)\<rparr>"
    if "img_url it \<noteq> []" "httpx_available e" "http_get e (img_url it) = Response 200"
      "img_write e ?n = WriteFailed"
    by (rule format_news_left_file [OF that(1) download_image_write_failed [OF that(2-4)]])
  from chain no_image loop same left show ?thesis by blast
qed

theorem failed_download_keeps_item_witness:
  "download_fails offline (img_url news_u3)
   \<and> fst (format_news offline news_u3 warm)
       = [Plain (lbracket @ ''2024.01.03'' @ rbracket @ newline), Plain (''T3'' @ newline),
          Plain (triangle @ ''u3'')]
   \<and> Image (os_path_join (img_dir_path offline) (img_name offline ''u3''))
       \<notin> set (fst (format_news offline news_u3 warm))
   \<and> snd (format_news offline news_u3 warm) = warm
   \<and> fst (push_news offline [news_u3] warm) = [(news_u3, fst (format_news offline news_u3 warm))]
   \<and> img_write disk_full (img_name disk_full (item_id news_u3)) = WriteFailed
   \<and> snd (format_news disk_full news_u3 warm)
       = warm\<lparr>img_dir := add_file (img_name disk_full (item_id news_u3)) (img_dir warm)\<rparr>"
proof -
  have a: "download_fails offline (img_url news_u3)"
    by (simp add: download_fails_def offline_def proc1_def)
  have a': "http_get offline (img_url news_u3) \<noteq> Response 200"
    by (simp add: offline_def proc1_def)
  have b: "date news_u3 = ''2024.01.03''" "title news_u3 = ''T3''" "url news_u3 = ''u3''"
    "img_url news_u3 \<noteq> []"
    by (simp_all add: news_u3_def)
  have c: "httpx_available disk_full" "http_get disk_full (img_url news_u3) = Response 200"
    "img_write disk_full (img_name disk_full (item_id news_u3)) = WriteFailed"
    by (simp_all add: disk_full_def proc1_def)
  have d: "\<not> fst (download_image disk_full (img_url news_u3)
                     (img_name disk_full (item_id news_u3)) warm)"
    by (simp add: download_image_write_failed [OF c])
  from failed_download_keeps_item [OF download_fails_returns_false [OF a],
         where p = "os_path_join (img_dir_path offline) (img_name offline ''u3'')"
         and s = warm and rest = "[]"]
       failed_download_keeps_item [OF d, where rest = "[]"]
       a a' b c
  show ?thesis by simp
qed

section \<open>The addresses of a card\<close>

text \<open>What both branches do: an address that starts with \<open>http\<close> is kept, and one that
  does not is put behind the origin of the site.\<close>

lemma news_url_of_absolute:
  "prefix ''http'' h \<Longrightarrow> news_url_of (Some h) = h"
  by (simp add: news_url_of_def)

lemma news_url_of_relative:
  "h \<noteq> [] \<Longrightarrow> \<not> prefix ''http'' h \<Longrightarrow> news_url_of (Some h) = ''https://idolmaster-official.jp'' @ h"
  by (simp add: news_url_of_def site_origin_def)

lemma img_url_of_absolute:
  "prefix ''http'' u \<Longrightarrow> img_url_of (Some u) d = u"
  by (auto simp: img_url_of_def Let_def)

lemma img_url_of_protocol_relative:
  "prefix ''//'' u \<Longrightarrow> img_url_of (Some u) d = ''https:'' @ u"
  by (auto simp: img_url_of_def Let_def prefix_def)

lemma img_url_of_relative:
  "u \<noteq> [] \<Longrightarrow> \<not> prefix ''http'' u \<Longrightarrow> \<not> prefix ''//'' u \<Longrightarrow>
   img_url_of (Some u) d = ''https://idolmaster-official.jp'' @ u"
  by (simp add: img_url_of_def site_origin_def)

text \<open>
  C9. The image address of a card is normalised as claimed, and so is a relative address
  of the title link; but a protocol-relative address of the title link is not resolved to
  \<open>https:\<close>, it is put behind the origin like any other address that does not start with
  \<open>http\<close>. The card below has the same kind of address in both places.
\<close>

theorem detail_url_protocol_relative:
  "get_latest_news (Some [card_pr])
     = [\<lparr>item_id = ''https://idolmaster-official.jp//cdn.example.jp/news/1'', title = ''T'',
          date = [], url = ''https://idolmaster-official.jp//cdn.example.jp/news/1'',
          img_url = ''https://cdn.example.jp/img/1.jpg''\<rparr>]
   \<and> news_url_of (Some ''//cdn.example.jp/news/1'') \<noteq> ''https://cdn.example.jp/news/1''"
  by (simp add: get_latest_news_def parse_card_def card_pr_def news_url_of_def img_url_of_def
      site_origin_def Let_def)


section \<open>The bound on the retained items\<close>











text \<open>\<open>_load_cache\<close> itself takes the list of the file as it is.\<close>

lemma load_cache_restores:
  "cache_file s = Stored ids items \<Longrightarrow> item_cache (load_cache s) = items"
  by (simp add: load_cache_def)









end
